theory Spec2Isabelle
  imports Complex_Main "HOL-Library.Sublist"
begin

section \<open>Strings as the Python code uses them\<close>

text \<open>
  Python strings are sequences of code points. The model uses \<^typ>\<open>string\<close>, whose characters
  are the code points below 256 (Latin-1). On that range \<open>str.isspace\<close>, \<open>str.lower\<close> and
  the case-insensitive regular expression of the source behave as defined below.
\<close>

definition is_space :: "char \<Rightarrow> bool" where
  "is_space c = (c \<in> {CHR 0x09, CHR 0x0A, CHR 0x0B, CHR 0x0C, CHR 0x0D, CHR 0x1C, CHR 0x1D,
                       CHR 0x1E, CHR 0x1F, CHR 0x20, CHR 0x85, CHR 0xA0})"

definition is_upper :: "char \<Rightarrow> bool" where
  "is_upper c = (c \<in> set ''ABCDEFGHIJKLMNOPQRSTUVWXYZ'' \<or>
     c \<in> {CHR 0xC0, CHR 0xC1, CHR 0xC2, CHR 0xC3, CHR 0xC4, CHR 0xC5, CHR 0xC6, CHR 0xC7,
           CHR 0xC8, CHR 0xC9, CHR 0xCA, CHR 0xCB, CHR 0xCC, CHR 0xCD, CHR 0xCE, CHR 0xCF,
           CHR 0xD0, CHR 0xD1, CHR 0xD2, CHR 0xD3, CHR 0xD4, CHR 0xD5, CHR 0xD6,
           CHR 0xD8, CHR 0xD9, CHR 0xDA, CHR 0xDB, CHR 0xDC, CHR 0xDD, CHR 0xDE})"

text \<open>An upper-case letter of Latin-1 and its lower-case letter differ in one bit (0x20).\<close>

definition char_lower :: "char \<Rightarrow> char" where
  "char_lower c =
     (if is_upper c
      then (case c of Char b0 b1 b2 b3 b4 b5 b6 b7 \<Rightarrow> Char b0 b1 b2 b3 b4 True b6 b7)
      else c)"

text \<open>\<open>s.lower()\<close>\<close>

definition lower :: "string \<Rightarrow> string" where
  "lower s = map char_lower s"

text \<open>\<open>s.strip()\<close>: leading and trailing whitespace removed.\<close>

definition strip :: "string \<Rightarrow> string" where
  "strip s = rev (dropWhile is_space (rev (dropWhile is_space s)))"

text \<open>\<open>s.startswith(p)\<close> and \<open>s.endswith(p)\<close>\<close>

definition startswith :: "string \<Rightarrow> string \<Rightarrow> bool" where
  "startswith s p = prefix p s"

definition endswith :: "string \<Rightarrow> string \<Rightarrow> bool" where
  "endswith s p = suffix p s"

text \<open>\<open>sub in s\<close>\<close>

fun py_in :: "string \<Rightarrow> string \<Rightarrow> bool" where
  "py_in sub [] = (sub = [])"
| "py_in sub (c # cs) = (prefix sub (c # cs) \<or> py_in sub cs)"

text \<open>
  \<open>s.replace(old, "")\<close> for a non-empty \<open>old\<close>: the occurrences of \<open>old\<close> are removed,
  scanning from the left, without overlap. The source only calls it with the marker.
\<close>

function remove_all :: "string \<Rightarrow> string \<Rightarrow> string" where
  "remove_all old [] = []"
| "remove_all old (c # cs) =
     (if old \<noteq> [] \<and> prefix old (c # cs)
      then remove_all old (drop (length old - 1) cs)
      else c # remove_all old cs)"
  by pat_completeness auto
termination
  by (relation "measure (\<lambda>(old, s). length s)") auto

section \<open>SQL extraction\<close>

text \<open>
  Both \<open>main.py\<close> (lines 147--150) and \<open>TestExecutor.execute_test_case\<close> (lines 142--145) run
  \<^verbatim>\<open>
  match = re.search(r'SELECT .*', response, re.IGNORECASE | re.DOTALL)
  sql = match.group(0).strip() if match else response.strip()
  if sql.endswith(';'):
      sql = sql[:-1]
  \<close>
  The pattern is the six letters followed by one space; with \<open>DOTALL\<close> the \<open>.*\<close> runs to the
  end of the text, so the match is the suffix that starts at the first position where the
  pattern's seven characters are found, letters compared without case.
\<close>

definition matches_select :: "string \<Rightarrow> bool" where
  "matches_select s = (lower (take 7 s) = ''select '')"

fun re_search_select :: "string \<Rightarrow> string option" where
  "re_search_select [] = None"
| "re_search_select (c # cs) =
     (if matches_select (c # cs) then Some (c # cs) else re_search_select cs)"

definition extract_sql :: "string \<Rightarrow> string" where
  "extract_sql response =
     (let sql = (case re_search_select response of
                   Some g \<Rightarrow> strip g
                 | None \<Rightarrow> strip response)
      in if endswith sql '';'' then butlast sql else sql)"

section \<open>The interactive application (main.py)\<close>

type_synonym dataframe = "string list list"

text \<open>
  The relational store is a parameter: a query either raises (\<open>Inl\<close> the exception's text)
  or gives the rows. \<open>run_query\<close> of \<open>main.py\<close> has no handler of its own.
\<close>

type_synonym store = "string \<Rightarrow> string + dataframe"

definition run_query :: "store \<Rightarrow> string \<Rightarrow> string + dataframe" where
  "run_query db query = db query"

record turn =
  role :: string
  content :: string

datatype api_message = SystemMessage string | HumanMessage string | AIMessage string

text \<open>
  \<open>run_agent\<close> either raises or returns a response, which is \<open>None\<close> when the stream had no
  event.
\<close>

datatype inference = Raises string | Returns "string option"

datatype ui_event =
    ChatUser string
  | Markdown string
  | Code string
  | ErrorBox string
  | WarningBox string

text \<open>
  The session state of the source (\<open>messages\<close>, \<open>results\<close>), and what a round shows and which
  queries it sends to the store.
\<close>

record session =
  messages :: "turn list"
  results :: "(string \<times> dataframe) list"
  ui :: "ui_event list"
  store_calls :: "string list"

definition mk_turn :: "string \<Rightarrow> string \<Rightarrow> turn" where
  "mk_turn r c = \<lparr>role = r, content = c\<rparr>"

text \<open>Lines 116--121: the clarification answer is merged into \<open>messages[-2]\<close>.\<close>

definition clarification_chaining :: "turn list \<Rightarrow> string \<Rightarrow> turn list \<times> string option" where
  "clarification_chaining msgs user_input =
     (if length msgs \<ge> 2
      then (let last_assistant = last msgs
            in if py_in ''clarification'' (lower (content last_assistant))
               then (let i = length msgs - 2
                     in (msgs[i := (msgs ! i)\<lparr>content := content (msgs ! i) @ '' '' @ user_input\<rparr>],
                         None))
               else (msgs, Some user_input))
      else (msgs, Some user_input))"

text \<open>Lines 123--126: \<open>if user_input:\<close> is false for \<open>None\<close> and for the empty string.\<close>

definition append_user :: "session \<Rightarrow> string option \<Rightarrow> session" where
  "append_user st user_input =
     (case user_input of
        None \<Rightarrow> st
      | Some u \<Rightarrow>
          if u = [] then st
          else st\<lparr>messages := messages st @ [mk_turn ''user'' u], ui := ui st @ [ChatUser u]\<rparr>)"

text \<open>Lines 131--137.\<close>

fun api_messages :: "turn list \<Rightarrow> api_message list" where
  "api_messages [] = []"
| "api_messages (m # ms) =
     (if role m = ''user'' then HumanMessage (content m) # api_messages ms
      else if role m = ''assistant'' then AIMessage (content m) # api_messages ms
      else api_messages ms)"

definition warning_message :: string where
  "warning_message = ''Could not generate a response. Please try rephrasing your question.''"

text \<open>Lines 141--167. \<open>if response_from_model:\<close> is false for \<open>None\<close> and for the empty string.\<close>

definition handle_response :: "store \<Rightarrow> session \<Rightarrow> string option \<Rightarrow> session" where
  "handle_response db st response_from_model =
     (case response_from_model of
        None \<Rightarrow>
          st\<lparr>messages := messages st @ [mk_turn ''assistant'' warning_message],
             ui := ui st @ [WarningBox warning_message]\<rparr>
      | Some r \<Rightarrow>
          if r = [] then
            st\<lparr>messages := messages st @ [mk_turn ''assistant'' warning_message],
               ui := ui st @ [WarningBox warning_message]\<rparr>
          else if startswith r ''CLARIFICATION:'' then
            (let clarification_text = strip (remove_all ''CLARIFICATION:'' r)
             in st\<lparr>messages := messages st @ [mk_turn ''assistant'' clarification_text],
                   ui := ui st @ [Markdown clarification_text]\<rparr>)
          else
            (let sql = extract_sql r
             in case run_query db sql of
                  Inr result_df \<Rightarrow>
                    st\<lparr>messages := messages st @ [mk_turn ''assistant'' sql],
                       results := results st @ [(sql, result_df)],
                       ui := ui st @ [Code sql],
                       store_calls := store_calls st @ [sql]\<rparr>
                | Inl e \<Rightarrow>
                    (let error_message = ''Error running query: '' @ e
                     in st\<lparr>messages := messages st @ [mk_turn ''assistant'' error_message],
                           ui := ui st @ [Code sql, ErrorBox error_message],
                           store_calls := store_calls st @ [sql]\<rparr>)))"

text \<open>
  Lines 113--167, one run of the script on an input. The second component is the exception
  that leaves the script when \<open>run_agent\<close> raises: nothing catches it, and the session keeps
  what was stored before the call.
\<close>

definition chat_round ::
  "string \<Rightarrow> (api_message list \<Rightarrow> inference) \<Rightarrow> store \<Rightarrow> session \<Rightarrow> string option
     \<Rightarrow> session \<times> string option" where
  "chat_round system_prompt run_agent db st chat_input =
     (case chat_input of
        None \<Rightarrow> (st, None)
      | Some u \<Rightarrow>
          if u = [] then (st, None)
          else
            (let (msgs, user_input) = clarification_chaining (messages st) u;
                 st1 = append_user (st\<lparr>messages := msgs\<rparr>) user_input
             in case run_agent (SystemMessage system_prompt # api_messages (messages st1)) of
                  Raises e \<Rightarrow> (st1, Some e)
                | Returns r \<Rightarrow> (handle_response db st1 r, None)))"

definition empty_session :: session where
  "empty_session = \<lparr>messages = [], results = [], ui = [], store_calls = []\<rparr>"

section \<open>The test harness (test\_executor.py)\<close>

record TestResult =
  test_id :: string
  query :: string
  generated_sql :: string
  execution_status :: string
  execution_time :: real
  result_count :: int
  error_message :: "string option"
  clarification_requested :: bool

text \<open>
  What \<open>TestExecutor.run_query\<close> reads from its surroundings: whether the database file is
  found under either path, the two paths (for the message) and the store itself.
\<close>

record harness_env =
  primary_exists :: bool
  alt_exists :: bool
  db_abspath :: string
  alt_db_path :: string
  db_store :: store

text \<open>
  Lines 77--106. The result is the pair the source returns, with the queries that reached
  the store. Every exception of the connection and the read is caught by the handler.
\<close>

definition TestExecutor_run_query ::
  "harness_env \<Rightarrow> string \<Rightarrow> (dataframe option \<times> string option) \<times> string list" where
  "TestExecutor_run_query env q =
     (if \<not> primary_exists env \<and> \<not> alt_exists env
      then ((None, Some (''Database not found at: '' @ db_abspath env @ '' or '' @ alt_db_path env)),
            [])
      else (case db_store env q of
              Inr df \<Rightarrow> ((Some df, None), [q])
            | Inl e \<Rightarrow> ((None, Some e), [q])))"

text \<open>Lines 108--118: the inference call raises (\<open>Inl\<close>) or returns the response's content.\<close>

definition generate_sql ::
  "string \<Rightarrow> (api_message list \<Rightarrow> string + string) \<Rightarrow> string \<Rightarrow> string" where
  "generate_sql system_prompt llm natural_query =
     (case llm [SystemMessage system_prompt, HumanMessage natural_query] of
        Inr c \<Rightarrow> c
      | Inl e \<Rightarrow> ''Error generating SQL: '' @ e)"

text \<open>
  Lines 120--170. The clock is read at the start and once at the end; \<open>if error:\<close> is false
  for \<open>None\<close> and for the empty string.
\<close>

definition execute_test_case ::
  "string \<Rightarrow> (api_message list \<Rightarrow> string + string) \<Rightarrow> harness_env \<Rightarrow> real \<Rightarrow> real
     \<Rightarrow> string \<Rightarrow> string \<Rightarrow> TestResult \<times> string list" where
  "execute_test_case system_prompt llm env start_time end_time tid q =
     (let ai_response = generate_sql system_prompt llm q
      in if startswith ai_response ''CLARIFICATION:''
         then (\<lparr>test_id = tid, query = q, generated_sql = ai_response,
                 execution_status = ''CLARIFICATION_REQUESTED'',
                 execution_time = end_time - start_time, result_count = 0,
                 error_message = None, clarification_requested = True\<rparr>, [])
         else
           (let sql = extract_sql ai_response;
                ((result_df, error), calls) = TestExecutor_run_query env sql
            in if error \<noteq> None \<and> error \<noteq> Some []
               then (\<lparr>test_id = tid, query = q, generated_sql = sql,
                       execution_status = ''FAILED'',
                       execution_time = end_time - start_time, result_count = 0,
                       error_message = error, clarification_requested = False\<rparr>, calls)
               else (\<lparr>test_id = tid, query = q, generated_sql = sql,
                       execution_status = ''PASSED'',
                       execution_time = end_time - start_time,
                       result_count = (case result_df of Some df \<Rightarrow> int (length df) | None \<Rightarrow> 0),
                       error_message = None, clarification_requested = False\<rparr>, calls)))"

subsection \<open>Summary statistics\<close>

datatype py_error = ZeroDivisionError

text \<open>Python's \<open>/\<close> raises on a zero divisor.\<close>

definition truediv :: "real \<Rightarrow> real \<Rightarrow> py_error + real" where
  "truediv a b = (if b = 0 then Inl ZeroDivisionError else Inr (a / b))"

record summary =
  total_tests :: nat
  passed :: nat
  failed :: nat
  clarification :: nat
  pass_rate :: real
  average_execution_time :: real

definition count_status :: "string \<Rightarrow> TestResult list \<Rightarrow> nat" where
  "count_status s rs = length (filter (\<lambda>r. execution_status r = s) rs)"

text \<open>Lines 177--193. A conditional expression evaluates the division only when its test holds.\<close>

definition generate_summary_stats :: "TestResult list \<Rightarrow> py_error + summary" where
  "generate_summary_stats test_results =
     (let total = length test_results;
          p = count_status ''PASSED'' test_results;
          f = count_status ''FAILED'' test_results;
          c = count_status ''CLARIFICATION_REQUESTED'' test_results
      in case (if total > 0
               then truediv (sum_list (map execution_time test_results)) (real total)
               else Inr 0) of
           Inl e \<Rightarrow> Inl e
         | Inr avg_execution_time \<Rightarrow>
             (case (if total > 0
                    then (case truediv (real p) (real total) of
                            Inl e \<Rightarrow> Inl e
                          | Inr x \<Rightarrow> Inr (x * 100))
                    else Inr 0) of
                Inl e \<Rightarrow> Inl e
              | Inr rate \<Rightarrow>
                  Inr \<lparr>total_tests = total, passed = p, failed = f, clarification = c,
                       pass_rate = rate, average_execution_time = avg_execution_time\<rparr>))"

section \<open>Auxiliary definitions\<close>

text \<open>\<open>s.rstrip()\<close>, the removal of one final \<open>;\<close>, and the two of them in a row.\<close>

definition rstrip :: "string \<Rightarrow> string" where
  "rstrip s = rev (dropWhile is_space (rev s))"

definition chop_semicolon :: "string \<Rightarrow> string" where
  "chop_semicolon s = (if endswith s '';'' then butlast s else s)"

definition post :: "string \<Rightarrow> string" where
  "post s = chop_semicolon (rstrip s)"

definition no_leading_space :: "string \<Rightarrow> bool" where
  "no_leading_space s = (s = [] \<or> \<not> is_space (hd s))"

text \<open>The assistant turns of a conversation.\<close>

definition assistant_turns :: "turn list \<Rightarrow> turn list" where
  "assistant_turns ms = filter (\<lambda>m. role m = ''assistant'') ms"

subsection \<open>The specification's wording of the extractor's position property\<close>

text \<open>
  The token \<open>SELECT\<close> in any letter case, the index of its first occurrence, and "the output
  is a suffix of the input that starts at or after that index".
\<close>

definition spec_has_select_token :: "string \<Rightarrow> bool" where
  "spec_has_select_token s = py_in ''select'' (lower s)"

fun spec_first_select :: "string \<Rightarrow> nat" where
  "spec_first_select [] = 0"
| "spec_first_select (c # cs) =
     (if prefix ''select'' (lower (c # cs)) then 0 else Suc (spec_first_select cs))"

definition spec_output_at_or_after_select :: "string \<Rightarrow> string \<Rightarrow> bool" where
  "spec_output_at_or_after_select s out =
     list_ex (\<lambda>i. out = drop i s) [spec_first_select s ..< Suc (length s)]"

subsection \<open>Concrete surroundings for the examples\<close>

text \<open>A store with one table, \<open>branches\<close>, of two rows; every other query fails.\<close>

definition branches_store :: store where
  "branches_store q =
     (if q = ''SELECT * FROM branches'' then Inr [[''1'', ''Pune''], [''2'', ''Delhi'']]
      else Inl ''no such table: nonexistent_table'')"

definition found_env :: harness_env where
  "found_env = \<lparr>primary_exists = True, alt_exists = True,
                 db_abspath = ''/code/src/banking_system.db'',
                 alt_db_path = ''/code/src/banking_system.db'', db_store = branches_store\<rparr>"

text \<open>The same surroundings with the database file absent under both paths.\<close>

definition missing_env :: harness_env where
  "missing_env = \<lparr>primary_exists = False, alt_exists = False,
                   db_abspath = ''/code/test/../src/banking_system.db'',
                   alt_db_path = ''/code/src/banking_system.db'', db_store = branches_store\<rparr>"

text \<open>An inference service that is down, for the harness.\<close>

definition refusing_llm :: "api_message list \<Rightarrow> string + string" where
  "refusing_llm m = Inl ''connection refused''"

text \<open>
  Three runs of the application: a question answered with SQL, a question on which the
  inference call raises, and a third question.
\<close>

definition round1 :: session where
  "round1 = fst (chat_round ''sys'' (\<lambda>m. Returns (Some ''SELECT * FROM branches''))
                   branches_store empty_session (Some ''List all branches''))"

definition round2 :: "session \<times> string option" where
  "round2 = chat_round ''sys'' (\<lambda>m. Raises ''timeout'') branches_store round1
              (Some ''I need clarification on fees'')"

definition round3 :: "session \<times> string option" where
  "round3 = chat_round ''sys'' (\<lambda>m. Returns (Some ''SELECT * FROM branches''))
              branches_store (fst round2) (Some ''List all branches'')"

text \<open>Four results of the harness, two of them passed.\<close>

definition sample_result :: "string \<Rightarrow> real \<Rightarrow> TestResult" where
  "sample_result s t =
     \<lparr>test_id = ''T'', query = ''q'', generated_sql = ''SELECT 1'', execution_status = s,
      execution_time = t, result_count = 0, error_message = None,
      clarification_requested = (s = ''CLARIFICATION_REQUESTED'')\<rparr>"

definition sample_results :: "TestResult list" where
  "sample_results =
     [sample_result ''PASSED'' 1, sample_result ''FAILED'' 2,
      sample_result ''CLARIFICATION_REQUESTED'' 3, sample_result ''PASSED'' 2]"

section \<open>String and search lemmas\<close>

lemma endswith_semicolon: "endswith s '';'' \<longleftrightarrow> s \<noteq> [] \<and> last s = CHR '';''"
  by (cases s rule: rev_cases) (auto simp add: endswith_def suffix_def)

lemma is_space_lower: "is_space c \<Longrightarrow> char_lower c = c"
  by (auto simp add: is_space_def char_lower_def is_upper_def)

lemma semicolon_lower: "char_lower (CHR '';'') = CHR '';''"
  by (simp add: char_lower_def is_upper_def)

lemma semicolon_not_space: "\<not> is_space (CHR '';'')"
  by (simp add: is_space_def)

lemma extract_sql_alt:
  "extract_sql s = chop_semicolon (strip (case re_search_select s of Some g \<Rightarrow> g | None \<Rightarrow> s))"
  by (simp add: extract_sql_def chop_semicolon_def Let_def split: option.splits)

lemma strip_rstrip: "strip s = rstrip (dropWhile is_space s)"
  by (simp add: strip_def rstrip_def)

lemma strip_no_leading: "no_leading_space s \<Longrightarrow> strip s = rstrip s"
  by (cases s) (auto simp add: strip_rstrip no_leading_space_def)

lemma rstrip_append:
  assumes "a \<noteq> []" "\<not> is_space (last a)"
  shows "rstrip (a @ b) = a @ rstrip b"
proof -
  have "dropWhile is_space (rev a) = rev a"
    using assms by (cases a rule: rev_cases) auto
  then show ?thesis
    by (auto simp add: rstrip_def dropWhile_append dropWhile_eq_Nil_conv)
qed

lemma rstrip_prefix: "prefix (rstrip s) s"
  using suffix_dropWhile [of is_space "rev s"] by (simp add: rstrip_def suffix_to_prefix)

lemma rstrip_last: "rstrip s \<noteq> [] \<Longrightarrow> \<not> is_space (last (rstrip s))"
  by (simp add: rstrip_def last_rev hd_dropWhile)

lemma rstrip_id: "s = [] \<or> \<not> is_space (last s) \<Longrightarrow> rstrip s = s"
  by (cases s rule: rev_cases) (auto simp add: rstrip_def)

lemma rstrip_changes: "s \<noteq> [] \<Longrightarrow> is_space (last s) \<Longrightarrow> length (rstrip s) < length s"
proof -
  assume "s \<noteq> []" and sp: "is_space (last s)"
  then obtain ys y where s: "s = ys @ [y]" by (cases s rule: rev_cases) auto
  have "length (dropWhile is_space (rev ys)) \<le> length ys"
    using length_dropWhile_le [of is_space "rev ys"] by simp
  then show ?thesis using sp by (simp add: s rstrip_def)
qed

lemma matches_select_length: "matches_select g \<Longrightarrow> 7 \<le> length g"
proof -
  assume "matches_select g"
  then have "length (lower (take 7 g)) = length ''select ''"
    by (simp only: matches_select_def)
  then show ?thesis by (simp add: lower_def)
qed

lemma short_no_match: "length s < 7 \<Longrightarrow> re_search_select s = None"
proof (induction s)
  case Nil
  then show ?case by simp
next
  case (Cons c cs)
  then have "\<not> matches_select (c # cs)"
    using matches_select_length [of "c # cs"] by auto
  then show ?case using Cons by simp
qed

lemma search_self: "matches_select g \<Longrightarrow> re_search_select g = Some g"
  using matches_select_length [of g] by (cases g) auto

lemma search_Some:
  "re_search_select s = Some g \<Longrightarrow>
     matches_select g \<and> (\<exists>pre. s = pre @ g \<and> (\<forall>i<length pre. \<not> matches_select (drop i s)))"
proof (induction s)
  case Nil
  then show ?case by simp
next
  case (Cons c cs)
  show ?case
  proof (cases "matches_select (c # cs)")
    case True
    then have "g = c # cs" using Cons.prems by simp
    then show ?thesis using True by auto
  next
    case False
    then have "re_search_select cs = Some g" using Cons.prems by simp
    then obtain pre where m: "matches_select g" and p: "cs = pre @ g"
      and n: "\<forall>i<length pre. \<not> matches_select (drop i cs)"
      using Cons.IH by blast
    have "\<forall>i<length (c # pre). \<not> matches_select (drop i (c # cs))"
    proof (intro allI impI)
      fix i assume "i < length (c # pre)"
      then show "\<not> matches_select (drop i (c # cs))"
        using False n by (cases i) auto
    qed
    moreover have "c # cs = (c # pre) @ g" using p by simp
    ultimately show ?thesis using m by blast
  qed
qed

lemma search_None: "re_search_select s = None \<longleftrightarrow> (\<forall>i. \<not> matches_select (drop i s))"
proof (induction s)
  case Nil
  have "\<not> matches_select []" by (simp add: matches_select_def lower_def)
  then show ?case by simp
next
  case (Cons c cs)
  show ?case
  proof (cases "matches_select (c # cs)")
    case True
    then have "matches_select (drop 0 (c # cs))" by simp
    then show ?thesis using True by (metis option.distinct(1) re_search_select.simps(2))
  next
    case False
    have "(\<forall>i. \<not> matches_select (drop i (c # cs))) \<longleftrightarrow> (\<forall>i. \<not> matches_select (drop i cs))"
    proof
      assume a: "\<forall>i. \<not> matches_select (drop i (c # cs))"
      show "\<forall>i. \<not> matches_select (drop i cs)"
      proof
        fix i show "\<not> matches_select (drop i cs)" using a [rule_format, of "Suc i"] by simp
      qed
    next
      assume a: "\<forall>i. \<not> matches_select (drop i cs)"
      show "\<forall>i. \<not> matches_select (drop i (c # cs))"
      proof
        fix i show "\<not> matches_select (drop i (c # cs))" using a False by (cases i) auto
      qed
    qed
    then show ?thesis using False Cons.IH by simp
  qed
qed

lemma matches_select_take:
  assumes "matches_select (drop i (take n s))"
  shows "matches_select (drop i s)"
proof -
  have l: "7 \<le> length (drop i (take n s))" using assms by (rule matches_select_length)
  have "take 7 (drop i (take n s)) = take 7 (take (n - i) (drop i s))"
    by (simp add: drop_take)
  also have "\<dots> = take 7 (drop i s)"
  proof -
    have "7 \<le> n - i" using l by simp
    then have "min 7 (n - i) = 7" by simp
    then show ?thesis by (simp only: take_take)
  qed
  finally show ?thesis using assms by (simp add: matches_select_def)
qed

lemma no_match_part:
  assumes "re_search_select s = None"
  shows "re_search_select (drop k (take n s)) = None"
proof -
  have "\<not> matches_select (drop i (drop k (take n s)))" for i
  proof
    assume "matches_select (drop i (drop k (take n s)))"
    then have "matches_select (drop (i + k) (take n s))" by (simp add: add.commute)
    then have "matches_select (drop (i + k) s)" by (rule matches_select_take)
    then show False using assms by (simp add: search_None)
  qed
  then show ?thesis by (simp add: search_None)
qed

lemma matches_select_head:
  assumes "matches_select g"
  shows "length (take 6 g) = 6" and "\<forall>c\<in>set (take 6 g). \<not> is_space c"
    and "last (take 6 g) \<noteq> CHR '';''" and "take 6 g \<noteq> []"
proof -
  have l: "7 \<le> length g" using assms by (rule matches_select_length)
  then show len: "length (take 6 g) = 6" by simp
  then show ne: "take 6 g \<noteq> []" by auto
  have "take 6 (lower (take 7 g)) = take 6 ''select ''"
    using assms by (simp only: matches_select_def)
  then have m: "map char_lower (take 6 g) = ''select''"
    by (simp add: lower_def take_map)
  show "\<forall>c\<in>set (take 6 g). \<not> is_space c"
  proof
    fix c assume c: "c \<in> set (take 6 g)"
    then have "char_lower c \<in> set (map char_lower (take 6 g))" by simp
    then have i: "char_lower c \<in> set ''select''" by (simp only: m)
    show "\<not> is_space c"
    proof
      assume s: "is_space c"
      then have "c \<in> set ''select''" using i by (simp only: is_space_lower)
      then show False using s by (auto simp add: is_space_def)
    qed
  qed
  have "char_lower (last (take 6 g)) = last (map char_lower (take 6 g))"
    using ne by (simp add: last_map)
  then have "char_lower (last (take 6 g)) = CHR ''t''" by (simp add: m)
  then show "last (take 6 g) \<noteq> CHR '';''"
    using semicolon_lower by auto
qed

lemma matches_select_no_leading: "matches_select g \<Longrightarrow> no_leading_space g"
proof -
  assume m: "matches_select g"
  then have "g \<noteq> []" using matches_select_length [of g] by auto
  moreover have "hd g \<in> set (take 6 g)" using \<open>g \<noteq> []\<close> by (cases g) auto
  ultimately show ?thesis using matches_select_head(2) [OF m] by (simp add: no_leading_space_def)
qed

lemma chop_semicolon_append:
  assumes "a \<noteq> []" "last a \<noteq> CHR '';''"
  shows "chop_semicolon (a @ w) = a @ chop_semicolon w"
  using assms by (cases "w = []") (auto simp add: chop_semicolon_def endswith_semicolon butlast_append)

lemma strip_match:
  assumes "matches_select g"
  shows "strip g = take 6 g @ rstrip (drop 6 g)"
proof -
  have "strip g = rstrip g"
    using assms by (simp add: strip_no_leading matches_select_no_leading)
  also have "\<dots> = rstrip (take 6 g @ drop 6 g)" by simp
  also have "\<dots> = take 6 g @ rstrip (drop 6 g)"
  proof (rule rstrip_append)
    show "take 6 g \<noteq> []" using assms by (rule matches_select_head(4))
    then have "last (take 6 g) \<in> set (take 6 g)" by (rule last_in_set)
    then show "\<not> is_space (last (take 6 g))" using matches_select_head(2) [OF assms] by blast
  qed
  finally show ?thesis .
qed

lemma extract_match:
  assumes "re_search_select s = Some g"
  shows "extract_sql s = take 6 g @ post (drop 6 g)"
proof -
  have m: "matches_select g" using assms search_Some by blast
  have "extract_sql s = chop_semicolon (strip g)" using assms by (simp add: extract_sql_alt)
  also have "\<dots> = chop_semicolon (take 6 g @ rstrip (drop 6 g))" using m by (simp only: strip_match)
  also have "\<dots> = take 6 g @ chop_semicolon (rstrip (drop 6 g))"
    using matches_select_head(4) [OF m] matches_select_head(3) [OF m] by (rule chop_semicolon_append)
  finally show ?thesis by (simp add: post_def)
qed

lemma extract_no_match:
  assumes "re_search_select s = None"
  shows "extract_sql s = post (dropWhile is_space s)"
  using assms by (simp add: extract_sql_alt post_def strip_rstrip)

lemma chop_prefix: "prefix (chop_semicolon s) s"
  by (simp add: chop_semicolon_def prefixeq_butlast)

lemma post_prefix: "prefix (post s) s"
  using chop_prefix [of "rstrip s"] rstrip_prefix [of s] by (auto simp add: post_def intro: prefix_order.trans)

lemma extract_post:
  assumes "no_leading_space x" and "re_search_select x = None \<or> matches_select x"
  shows "extract_sql x = post x"
proof -
  have "(case re_search_select x of Some g \<Rightarrow> g | None \<Rightarrow> x) = x"
    using assms(2) search_self by (auto split: option.splits)
  then show ?thesis using assms(1) by (simp add: extract_sql_alt post_def strip_no_leading)
qed

lemma chop_length: "length (chop_semicolon s) \<le> length s"
  by (simp add: chop_semicolon_def)

lemma post_fixed: "post x = x \<longleftrightarrow> x = [] \<or> (\<not> is_space (last x) \<and> last x \<noteq> CHR '';'')"
proof (cases "x = []")
  case True
  then show ?thesis by (simp add: post_def rstrip_def chop_semicolon_def endswith_semicolon)
next
  case False
  show ?thesis
  proof (cases "is_space (last x)")
    case True
    then have "length (rstrip x) < length x" using False by (simp add: rstrip_changes)
    then have "length (post x) < length x"
      using chop_length [of "rstrip x"] by (simp add: post_def)
    then show ?thesis using True False by auto
  next
    case sp: False
    then have "rstrip x = x" by (simp add: rstrip_id)
    then have "post x = chop_semicolon x" by (simp add: post_def)
    moreover have "butlast x \<noteq> x" using False by (metis length_butlast diff_less length_greater_0_conv less_numeral_extra(1) nat_neq_iff)
    ultimately show ?thesis using sp False by (auto simp add: chop_semicolon_def endswith_semicolon)
  qed
qed

lemma prefix_take7:
  assumes "prefix r g" "7 \<le> length r"
  shows "take 7 r = take 7 g"
proof -
  obtain z where "g = r @ z" using assms(1) by (auto simp add: prefix_def)
  then show ?thesis using assms(2) by simp
qed

lemma extract_shape:
  "no_leading_space (extract_sql s) \<and>
   (re_search_select (extract_sql s) = None \<or> matches_select (extract_sql s))"
proof (cases "re_search_select s")
  case None
  let ?t = "dropWhile is_space s"
  let ?r = "extract_sql s"
  have r: "?r = post ?t" using None by (rule extract_no_match)
  have p: "prefix ?r ?t" unfolding r by (rule post_prefix)
  have "no_leading_space ?r"
  proof (cases "?r = []")
    case True
    then show ?thesis by (simp add: no_leading_space_def)
  next
    case False
    have "?t \<noteq> []"
    proof
      assume "?t = []"
      then have "prefix ?r []" using p by (simp only:)
      then show False using False by simp
    qed
    then have "\<not> is_space (hd ?t)" by (rule hd_dropWhile)
    moreover have "hd ?r = hd ?t" using p False by (auto simp add: prefix_def)
    ultimately show ?thesis by (simp add: no_leading_space_def)
  qed
  moreover have "re_search_select ?r = None"
  proof -
    have "?r = take (length ?r) ?t" using p by (auto simp add: prefix_def)
    also have "\<dots> = take (length ?r) (drop (length (takeWhile is_space s)) s)"
      by (simp only: dropWhile_eq_drop)
    also have "\<dots> = drop (length (takeWhile is_space s)) (take (length ?r + length (takeWhile is_space s)) s)"
      by (simp only: take_drop)
    finally have e: "?r = drop (length (takeWhile is_space s)) (take (length ?r + length (takeWhile is_space s)) s)" .
    show ?thesis by (subst e) (rule no_match_part [OF None])
  qed
  ultimately show ?thesis by simp
next
  case (Some g)
  let ?r = "extract_sql s"
  have m: "matches_select g" using Some search_Some by blast
  have r: "?r = take 6 g @ post (drop 6 g)" using Some by (rule extract_match)
  have "prefix (take 6 g @ post (drop 6 g)) (take 6 g @ drop 6 g)"
    using post_prefix [of "drop 6 g"] by (simp only: same_prefix_prefix)
  then have p: "prefix ?r g" by (simp add: r)
  have ne: "take 6 g \<noteq> []" using m by (rule matches_select_head(4))
  have "hd ?r = hd (take 6 g)" using ne by (simp add: r)
  moreover have "hd (take 6 g) \<in> set (take 6 g)" using ne by (rule hd_in_set)
  ultimately have "\<not> is_space (hd ?r)" using matches_select_head(2) [OF m] by auto
  then have n: "no_leading_space ?r" by (simp add: no_leading_space_def)
  show ?thesis
  proof (cases "7 \<le> length ?r")
    case True
    then have "take 7 ?r = take 7 g" using p by (simp add: prefix_take7)
    then have "matches_select ?r" using m by (simp add: matches_select_def)
    then show ?thesis using n by simp
  next
    case False
    then have "re_search_select ?r = None" by (simp add: short_no_match)
    then show ?thesis using n by simp
  qed
qed

lemma chop_empty: "chop_semicolon y = [] \<longleftrightarrow> y = [] \<or> y = '';''"
proof (cases y rule: rev_cases)
  case Nil
  then show ?thesis by (simp add: chop_semicolon_def endswith_semicolon)
next
  case (snoc ys c)
  then show ?thesis by (auto simp add: chop_semicolon_def endswith_semicolon)
qed

lemma filter_dropWhile_not: "filter (\<lambda>c. \<not> P c) (dropWhile P xs) = filter (\<lambda>c. \<not> P c) xs"
  by (induction xs) auto

lemma filter_strip: "filter (\<lambda>c. \<not> is_space c) (strip s) = filter (\<lambda>c. \<not> is_space c) s"
  by (simp add: strip_def filter_dropWhile_not rev_filter [symmetric])

section \<open>The conversation round\<close>

lemma startswith_marker_nonempty: "startswith r ''CLARIFICATION:'' \<Longrightarrow> r \<noteq> []"
  by (auto simp add: startswith_def)

lemma marker_not_prefix_of_error:
  "\<not> startswith (''Error generating SQL: '' @ e) ''CLARIFICATION:''"
  by (simp add: startswith_def)

lemma warning_no_signal: "\<not> py_in ''clarification'' (lower warning_message)"
  by code_simp

text \<open>
  The merge itself, as lines 116--121 perform it: with at least two turns and the word
  \<open>clarification\<close> (any letter case) in the last turn, a space and the input are appended to
  the second-to-last turn and no user turn is to be appended.
\<close>

lemma clarification_chaining_merges:
  assumes "2 \<le> length msgs" and "py_in ''clarification'' (lower (content (last msgs)))"
  shows "clarification_chaining msgs u =
           (msgs[length msgs - 2 :=
              (msgs ! (length msgs - 2))\<lparr>content := content (msgs ! (length msgs - 2)) @ '' '' @ u\<rparr>],
            None)"
  using assms by (simp add: clarification_chaining_def Let_def)

lemma clarification_chaining_passes:
  assumes "length msgs < 2 \<or> \<not> py_in ''clarification'' (lower (content (last msgs)))"
  shows "clarification_chaining msgs u = (msgs, Some u)"
  using assms by (auto simp add: clarification_chaining_def Let_def)

text \<open>The example of the specification, on the stored turns it names.\<close>

lemma clarification_merge_example:
  "clarification_chaining
     [mk_turn ''user'' ''Show transactions'',
      mk_turn ''assistant'' ''CLARIFICATION: which period?''] ''last 7 days'' =
   ([mk_turn ''user'' ''Show transactions last 7 days'',
     mk_turn ''assistant'' ''CLARIFICATION: which period?''], None)"
  by code_simp

text \<open>
  The stored text of a clarification is the response without its marker (line 143), so the
  answer to "which period?" is appended as a new user turn.
\<close>

lemma stripped_clarification_is_not_merged:
  "messages (fst (chat_round ''sys'' (\<lambda>m. Returns (Some ''SELECT * FROM branches'')) branches_store
     (fst (chat_round ''sys'' (\<lambda>m. Returns (Some ''CLARIFICATION: which period?''))
             branches_store empty_session (Some ''Show transactions'')))
     (Some ''last 7 days''))) =
   [mk_turn ''user'' ''Show transactions'', mk_turn ''assistant'' ''which period?'',
    mk_turn ''user'' ''last 7 days'', mk_turn ''assistant'' ''SELECT * FROM branches'']"
  by code_simp

section \<open>The claims\<close>

text \<open>
  C1. Clarification merge: with at least two stored turns whose last turn is an assistant turn
  signalling a clarification request, the input is appended, after a space, to the
  second-to-last turn and no user turn is appended; in every other situation a new user turn
  is appended. The code does not look at the role of the last turn (its variable is named
  \<open>last_assistant\<close>). When the inference call raises, the user turn stays last; if it
  contains the word \<open>clarification\<close>, the next input is appended to the assistant turn
  before it, here to the stored SQL, and no user turn is created.
\<close>

theorem clarification_merge_ignores_role:
  "snd round2 = Some ''timeout''
   \<and> messages (fst round2) =
       [mk_turn ''user'' ''List all branches'', mk_turn ''assistant'' ''SELECT * FROM branches'',
        mk_turn ''user'' ''I need clarification on fees'']
   \<and> messages (fst round3) =
       [mk_turn ''user'' ''List all branches'',
        mk_turn ''assistant'' ''SELECT * FROM branches List all branches'',
        mk_turn ''user'' ''I need clarification on fees'',
        mk_turn ''assistant'' ''SELECT * FROM branches'']"
  by code_simp

text \<open>
  C2. A response that starts with \<open>CLARIFICATION:\<close> sends no query to the store in that
  round, neither in the application nor in the harness, and the harness's result has
  \<open>clarification_requested\<close> set.
\<close>

theorem clarification_response_skips_store:
  assumes "startswith r ''CLARIFICATION:''"
  shows "store_calls (fst (chat_round sp (\<lambda>m. Returns (Some r)) db st inp)) = store_calls st
       \<and> results (fst (chat_round sp (\<lambda>m. Returns (Some r)) db st inp)) = results st
       \<and> snd (execute_test_case sp (\<lambda>m. Inr r) env t0 t1 tid q) = []
       \<and> clarification_requested (fst (execute_test_case sp (\<lambda>m. Inr r) env t0 t1 tid q))
       \<and> execution_status (fst (execute_test_case sp (\<lambda>m. Inr r) env t0 t1 tid q)) =
           ''CLARIFICATION_REQUESTED''"
proof -
  have ne: "r \<noteq> []" using assms by (rule startswith_marker_nonempty)
  have a: "store_calls (handle_response db s (Some r)) = store_calls s" for s
    using assms ne by (simp add: handle_response_def Let_def)
  have b: "results (handle_response db s (Some r)) = results s" for s
    using assms ne by (simp add: handle_response_def Let_def)
  have c: "store_calls (fst (chat_round sp (\<lambda>m. Returns (Some r)) db st inp)) = store_calls st"
    by (simp add: chat_round_def a append_user_def Let_def split: option.splits prod.splits)
  have d: "results (fst (chat_round sp (\<lambda>m. Returns (Some r)) db st inp)) = results st"
    by (simp add: chat_round_def b append_user_def Let_def split: option.splits prod.splits)
  have g: "generate_sql sp (\<lambda>m. Inr r) q = r" by (simp add: generate_sql_def)
  have e: "execute_test_case sp (\<lambda>m. Inr r) env t0 t1 tid q =
             (\<lparr>test_id = tid, query = q, generated_sql = r,
               execution_status = ''CLARIFICATION_REQUESTED'',
               execution_time = t1 - t0, result_count = 0,
               error_message = None, clarification_requested = True\<rparr>, [])"
    using assms by (simp add: execute_test_case_def g)
  show ?thesis using c d by (simp add: e)
qed

theorem clarification_response_skips_store_witness:
  "startswith ''CLARIFICATION: which period?'' ''CLARIFICATION:''
   \<and> store_calls (fst (chat_round ''sys'' (\<lambda>m. Returns (Some ''CLARIFICATION: which period?''))
                          branches_store empty_session (Some ''Show transactions''))) =
       store_calls empty_session
   \<and> snd (execute_test_case ''sys'' (\<lambda>m. Inr ''CLARIFICATION: which period?'') found_env 0 1
             ''T1'' ''Show transactions'') = []
   \<and> clarification_requested
       (fst (execute_test_case ''sys'' (\<lambda>m. Inr ''CLARIFICATION: which period?'') found_env 0 1
               ''T1'' ''Show transactions''))"
proof -
  have h: "startswith ''CLARIFICATION: which period?'' ''CLARIFICATION:''"
    by (simp add: startswith_def)
  show ?thesis
    using h clarification_response_skips_store
      [OF h, of "''sys''" branches_store empty_session "Some ''Show transactions''"
         found_env 0 1 "''T1''" "''Show transactions''"]
    by blast
qed

text \<open>
  C3. The extractor is idempotent. Not for every input: one \<open>;\<close> is removed per
  application, and whitespace before a removed \<open>;\<close> stays.
\<close>

theorem extract_sql_not_idempotent:
  "extract_sql (extract_sql ''SELECT 1;;'') \<noteq> extract_sql ''SELECT 1;;''"
  by code_simp

text \<open>
  C3, as the code has it: applying the extractor twice gives the same as applying it once
  exactly when the first output is empty or ends neither in whitespace nor in \<open>;\<close>.
\<close>

theorem extract_sql_idempotent_iff:
  "extract_sql (extract_sql s) = extract_sql s \<longleftrightarrow>
     extract_sql s = [] \<or>
     (\<not> is_space (last (extract_sql s)) \<and> last (extract_sql s) \<noteq> CHR '';'')"
proof -
  have "extract_sql (extract_sql s) = post (extract_sql s)"
    using extract_shape [of s] by (simp add: extract_post)
  then show ?thesis by (simp only: post_fixed)
qed

theorem extract_sql_idempotent_iff_witness:
  "(extract_sql ''SELECT 1;'' = [] \<or>
      (\<not> is_space (last (extract_sql ''SELECT 1;'')) \<and> last (extract_sql ''SELECT 1;'') \<noteq> CHR '';''))
   \<and> extract_sql (extract_sql ''SELECT 1;'') = extract_sql ''SELECT 1;''"
proof -
  have e: "extract_sql ''SELECT 1;'' = ''SELECT 1''" by code_simp
  have h: "\<not> is_space (last (extract_sql ''SELECT 1;'')) \<and> last (extract_sql ''SELECT 1;'') \<noteq> CHR '';''"
    unfolding e by (simp add: is_space_def)
  show ?thesis using h extract_sql_idempotent_iff [of "''SELECT 1;''"] by blast
qed

text \<open>
  C4. For an input that contains the token \<open>SELECT\<close>, the output is a suffix of the input
  that starts at or after the first occurrence of the token. The pattern of the code wants a
  space after the token; without one the output is taken from the whole input.
\<close>

theorem extract_sql_before_select:
  "spec_has_select_token ''Query: SELECT* FROM branches''
   \<and> \<not> spec_output_at_or_after_select ''Query: SELECT* FROM branches''
         (extract_sql ''Query: SELECT* FROM branches'')"
  by code_simp

text \<open>
  C4, as the code has it: when the pattern (the six letters in any case, then a space) occurs,
  with \<open>g\<close> the input from its first occurrence on, the output begins with the first
  characters of \<open>g\<close> and is \<open>g\<close> without its trailing whitespace and without one final
  \<open>;\<close>; it is a prefix of \<open>g\<close>, and no earlier position of the input matches. The search
  finds a match whenever some position of the input matches. When no position matches, the
  output is the trimmed input without one final \<open>;\<close>.
\<close>

theorem extract_sql_starts_at_match:
  "(re_search_select s = Some g \<longrightarrow>
      (\<exists>pre. s = pre @ g \<and> (\<forall>i<length pre. \<not> matches_select (drop i s)))
      \<and> matches_select g
      \<and> prefix (extract_sql s) g \<and> take 6 (extract_sql s) = take 6 g
      \<and> extract_sql s = chop_semicolon (rstrip g))
   \<and> ((\<exists>i. matches_select (drop i s)) \<longrightarrow> (\<exists>g'. re_search_select s = Some g'))
   \<and> ((\<forall>i. \<not> matches_select (drop i s)) \<longrightarrow>
         re_search_select s = None \<and> extract_sql s = chop_semicolon (strip s))"
proof (intro conjI impI)
  assume a: "re_search_select s = Some g"
  show "\<exists>pre. s = pre @ g \<and> (\<forall>i<length pre. \<not> matches_select (drop i s))"
    using a search_Some by blast
  show m: "matches_select g" using a search_Some by blast
  have r: "extract_sql s = take 6 g @ post (drop 6 g)" using a by (rule extract_match)
  have "prefix (take 6 g @ post (drop 6 g)) (take 6 g @ drop 6 g)"
    using post_prefix [of "drop 6 g"] by (simp only: same_prefix_prefix)
  then show "prefix (extract_sql s) g" by (simp add: r)
  show "take 6 (extract_sql s) = take 6 g"
    using matches_select_head(1) [OF m] by (simp add: r)
  have "strip g = rstrip g" using m by (simp add: strip_no_leading matches_select_no_leading)
  then show "extract_sql s = chop_semicolon (rstrip g)" using a by (simp add: extract_sql_alt)
next
  assume "\<exists>i. matches_select (drop i s)"
  then have "re_search_select s \<noteq> None" by (simp add: search_None)
  then show "\<exists>g'. re_search_select s = Some g'" by auto
next
  assume "\<forall>i. \<not> matches_select (drop i s)"
  then show n: "re_search_select s = None" by (simp add: search_None)
  then show "extract_sql s = chop_semicolon (strip s)" by (simp add: extract_sql_alt)
qed

theorem extract_sql_starts_at_match_witness:
  "re_search_select ''Sure: select * from branches ;'' = Some ''select * from branches ;''
   \<and> prefix (extract_sql ''Sure: select * from branches ;'') ''select * from branches ;''
   \<and> take 6 (extract_sql ''Sure: select * from branches ;'') = take 6 ''select * from branches ;''
   \<and> extract_sql ''Sure: select * from branches ;'' = ''select * from branches ''
   \<and> matches_select (drop 6 ''Sure: select * from branches ;'')
   \<and> (\<forall>i. \<not> matches_select (drop i ''SELECT* FROM t ;''))
   \<and> extract_sql ''SELECT* FROM t ;'' = chop_semicolon (strip ''SELECT* FROM t ;'')
   \<and> extract_sql ''SELECT* FROM t ;'' = ''SELECT* FROM t ''"
proof -
  have h: "re_search_select ''Sure: select * from branches ;'' = Some ''select * from branches ;''"
    by code_simp
  have k: "matches_select (drop 6 ''Sure: select * from branches ;'')" by code_simp
  have v: "chop_semicolon (rstrip ''select * from branches ;'') = ''select * from branches ''"
    by code_simp
  have n: "\<forall>i. \<not> matches_select (drop i ''SELECT* FROM t ;'')"
  proof -
    have "re_search_select ''SELECT* FROM t ;'' = None" by code_simp
    then show ?thesis by (rule search_None [THEN iffD1])
  qed
  have w: "chop_semicolon (strip ''SELECT* FROM t ;'') = ''SELECT* FROM t ''" by code_simp
  have a: "prefix (extract_sql ''Sure: select * from branches ;'') ''select * from branches ;''
    \<and> take 6 (extract_sql ''Sure: select * from branches ;'') = take 6 ''select * from branches ;''
    \<and> extract_sql ''Sure: select * from branches ;'' = chop_semicolon (rstrip ''select * from branches ;'')"
    using h extract_sql_starts_at_match [of "''Sure: select * from branches ;''" "''select * from branches ;''"]
    by blast
  have b: "extract_sql ''SELECT* FROM t ;'' = chop_semicolon (strip ''SELECT* FROM t ;'')"
    using n extract_sql_starts_at_match [of "''SELECT* FROM t ;''" "[]"] by blast
  show ?thesis using h k n a b v w by simp
qed

text \<open>
  C5. The output is empty only when the input is empty. An input of whitespace is trimmed
  to nothing.
\<close>

theorem extract_sql_empty_on_nonempty:
  "''  '' \<noteq> [] \<and> extract_sql ''  '' = []"
  by code_simp

text \<open>
  C5, as the code has it: the output is empty exactly when the trimmed input is empty or is
  the single character \<open>;\<close>.
\<close>

theorem extract_sql_empty_iff: "extract_sql s = [] \<longleftrightarrow> strip s = [] \<or> strip s = '';''"
proof (cases "re_search_select s")
  case None
  then have "extract_sql s = chop_semicolon (strip s)" by (simp add: extract_sql_alt)
  then show ?thesis by (simp add: chop_empty)
next
  case (Some g)
  have m: "matches_select g" using Some search_Some by blast
  obtain pre where s: "s = pre @ g" using Some search_Some by blast
  have "extract_sql s = take 6 g @ post (drop 6 g)" using Some by (rule extract_match)
  then have a: "extract_sql s \<noteq> []" using matches_select_head(4) [OF m] by simp
  have "filter (\<lambda>c. \<not> is_space c) (take 6 g) = take 6 g"
    using matches_select_head(2) [OF m] by (simp add: filter_id_conv)
  then have "length (filter (\<lambda>c. \<not> is_space c) (take 6 g)) = 6"
    using matches_select_head(1) [OF m] by simp
  moreover have "filter (\<lambda>c. \<not> is_space c) s = filter (\<lambda>c. \<not> is_space c) pre @
      filter (\<lambda>c. \<not> is_space c) (take 6 g) @ filter (\<lambda>c. \<not> is_space c) (drop 6 g)"
  proof -
    have "s = pre @ take 6 g @ drop 6 g" using s by simp
    then have "filter (\<lambda>c. \<not> is_space c) s = filter (\<lambda>c. \<not> is_space c) (pre @ take 6 g @ drop 6 g)"
      by (rule arg_cong)
    then show ?thesis by (simp only: filter_append)
  qed
  ultimately have "6 \<le> length (filter (\<lambda>c. \<not> is_space c) s)" by simp
  then have "6 \<le> length (filter (\<lambda>c. \<not> is_space c) (strip s))" by (simp only: filter_strip)
  moreover have "length (filter (\<lambda>c. \<not> is_space c) (strip s)) \<le> length (strip s)"
    by (rule length_filter_le)
  ultimately have "6 \<le> length (strip s)" by (rule order_trans)
  then have "strip s \<noteq> [] \<and> strip s \<noteq> '';''" by auto
  then show ?thesis using a by simp
qed

theorem extract_sql_empty_iff_witness:
  "(strip '' ; '' = [] \<or> strip '' ; '' = '';'') \<and> extract_sql '' ; '' = []"
proof -
  have h: "strip '' ; '' = '';''" by code_simp
  show ?thesis using h extract_sql_empty_iff [of "'' ; ''"] by blast
qed

text \<open>
  C6. The query executor returns \<open>(rows, null)\<close> or \<open>(null, errorMessage)\<close> and never
  raises. \<open>run_query\<close> of the application returns the rows alone and raises on a failure.
\<close>

theorem run_query_raises:
  "run_query branches_store ''SELECT * FROM nonexistent_table'' =
     Inl ''no such table: nonexistent_table''"
  by (simp add: run_query_def branches_store_def)

text \<open>
  C6, as the code has it: \<open>TestExecutor.run_query\<close> returns \<open>(rows, None)\<close> or
  \<open>(None, message)\<close>. With the database file absent under both paths it is
  \<open>(None, "Database not found at: ...")\<close> and the store is not touched; with the file found
  the query goes to the store once, and the result is the store's rows or the text of its
  exception. The application's \<open>run_query\<close> raises, and the round that calls it catches
  the exception: the round ends without one, with the error shown and stored as an
  assistant turn; on success the rows are stored with the query.
\<close>

theorem query_failure_is_contained:
  "((\<exists>rows. fst (TestExecutor_run_query env q) = (Some rows, None))
      \<or> (\<exists>msg. fst (TestExecutor_run_query env q) = (None, Some msg)))
   \<and> (\<not> primary_exists env \<and> \<not> alt_exists env \<longrightarrow>
        TestExecutor_run_query env q =
          ((None, Some (''Database not found at: '' @ db_abspath env @ '' or '' @ alt_db_path env)),
           []))
   \<and> (primary_exists env \<or> alt_exists env \<longrightarrow>
        TestExecutor_run_query env q =
          (case db_store env q of
             Inr rows \<Rightarrow> ((Some rows, None), [q])
           | Inl e \<Rightarrow> ((None, Some e), [q])))
   \<and> snd (chat_round sp (\<lambda>m. Returns r) db st inp) = None
   \<and> (resp \<noteq> [] \<and> \<not> startswith resp ''CLARIFICATION:'' \<and> run_query db (extract_sql resp) = Inl e
        \<longrightarrow> handle_response db st (Some resp) =
              st\<lparr>messages := messages st @ [mk_turn ''assistant'' (''Error running query: '' @ e)],
                 ui := ui st @ [Code (extract_sql resp), ErrorBox (''Error running query: '' @ e)],
                 store_calls := store_calls st @ [extract_sql resp]\<rparr>)
   \<and> (resp \<noteq> [] \<and> \<not> startswith resp ''CLARIFICATION:'' \<and> run_query db (extract_sql resp) = Inr rows
        \<longrightarrow> handle_response db st (Some resp) =
              st\<lparr>messages := messages st @ [mk_turn ''assistant'' (extract_sql resp)],
                 results := results st @ [(extract_sql resp, rows)],
                 ui := ui st @ [Code (extract_sql resp)],
                 store_calls := store_calls st @ [extract_sql resp]\<rparr>)"
proof -
  have a: "(\<exists>rows. fst (TestExecutor_run_query env q) = (Some rows, None))
      \<or> (\<exists>msg. fst (TestExecutor_run_query env q) = (None, Some msg))"
    by (simp add: TestExecutor_run_query_def split: sum.splits)
  have a': "\<not> primary_exists env \<and> \<not> alt_exists env \<longrightarrow>
        TestExecutor_run_query env q =
          ((None, Some (''Database not found at: '' @ db_abspath env @ '' or '' @ alt_db_path env)),
           [])"
    by (simp add: TestExecutor_run_query_def)
  have b: "primary_exists env \<or> alt_exists env \<longrightarrow>
        TestExecutor_run_query env q =
          (case db_store env q of
             Inr rows \<Rightarrow> ((Some rows, None), [q])
           | Inl e \<Rightarrow> ((None, Some e), [q]))"
    by (auto simp add: TestExecutor_run_query_def split: sum.splits)
  have c: "snd (chat_round sp (\<lambda>m. Returns r) db st inp) = None"
    by (simp add: chat_round_def Let_def split: option.splits prod.splits)
  have d: "resp \<noteq> [] \<and> \<not> startswith resp ''CLARIFICATION:'' \<and> run_query db (extract_sql resp) = Inl e
        \<longrightarrow> handle_response db st (Some resp) =
              st\<lparr>messages := messages st @ [mk_turn ''assistant'' (''Error running query: '' @ e)],
                 ui := ui st @ [Code (extract_sql resp), ErrorBox (''Error running query: '' @ e)],
                 store_calls := store_calls st @ [extract_sql resp]\<rparr>"
    by (simp add: handle_response_def Let_def)
  have d': "resp \<noteq> [] \<and> \<not> startswith resp ''CLARIFICATION:'' \<and> run_query db (extract_sql resp) = Inr rows
        \<longrightarrow> handle_response db st (Some resp) =
              st\<lparr>messages := messages st @ [mk_turn ''assistant'' (extract_sql resp)],
                 results := results st @ [(extract_sql resp, rows)],
                 ui := ui st @ [Code (extract_sql resp)],
                 store_calls := store_calls st @ [extract_sql resp]\<rparr>"
    by (simp add: handle_response_def Let_def)
  show ?thesis using a a' b c d d' by (intro conjI)
qed

theorem query_failure_is_contained_witness:
  "(primary_exists found_env \<or> alt_exists found_env)
   \<and> TestExecutor_run_query found_env ''SELECT * FROM nonexistent_table'' =
       ((None, Some ''no such table: nonexistent_table''), [''SELECT * FROM nonexistent_table''])
   \<and> TestExecutor_run_query found_env ''SELECT * FROM branches'' =
       ((Some [[''1'', ''Pune''], [''2'', ''Delhi'']], None), [''SELECT * FROM branches''])
   \<and> (\<not> primary_exists missing_env \<and> \<not> alt_exists missing_env)
   \<and> TestExecutor_run_query missing_env ''SELECT * FROM branches'' =
       ((None, Some ''Database not found at: /code/test/../src/banking_system.db or /code/src/banking_system.db''), [])
   \<and> ''SELECT * FROM nonexistent_table'' \<noteq> []
   \<and> \<not> startswith ''SELECT * FROM nonexistent_table'' ''CLARIFICATION:''
   \<and> run_query branches_store (extract_sql ''SELECT * FROM nonexistent_table'') =
       Inl ''no such table: nonexistent_table''
   \<and> messages (handle_response branches_store empty_session (Some ''SELECT * FROM nonexistent_table'')) =
       [mk_turn ''assistant'' ''Error running query: no such table: nonexistent_table'']
   \<and> ''SELECT * FROM branches'' \<noteq> []
   \<and> \<not> startswith ''SELECT * FROM branches'' ''CLARIFICATION:''
   \<and> run_query branches_store (extract_sql ''SELECT * FROM branches'') =
       Inr [[''1'', ''Pune''], [''2'', ''Delhi'']]
   \<and> results (handle_response branches_store empty_session (Some ''SELECT * FROM branches'')) =
       [(''SELECT * FROM branches'', [[''1'', ''Pune''], [''2'', ''Delhi'']])]"
proof -
  have x: "extract_sql ''SELECT * FROM nonexistent_table'' = ''SELECT * FROM nonexistent_table''"
    by code_simp
  have y: "extract_sql ''SELECT * FROM branches'' = ''SELECT * FROM branches''"
    by code_simp
  have h1: "primary_exists found_env \<or> alt_exists found_env" by (simp add: found_env_def)
  have h0: "\<not> primary_exists missing_env \<and> \<not> alt_exists missing_env" by (simp add: missing_env_def)
  have h2: "''SELECT * FROM nonexistent_table'' \<noteq> []
     \<and> \<not> startswith ''SELECT * FROM nonexistent_table'' ''CLARIFICATION:''
     \<and> run_query branches_store (extract_sql ''SELECT * FROM nonexistent_table'') =
         Inl ''no such table: nonexistent_table''"
    by (simp add: x startswith_def run_query_def branches_store_def)
  have h3: "''SELECT * FROM branches'' \<noteq> []
     \<and> \<not> startswith ''SELECT * FROM branches'' ''CLARIFICATION:''
     \<and> run_query branches_store (extract_sql ''SELECT * FROM branches'') =
         Inr [[''1'', ''Pune''], [''2'', ''Delhi'']]"
    by (simp add: y startswith_def run_query_def branches_store_def)
  have s: "db_store found_env ''SELECT * FROM nonexistent_table'' = Inl ''no such table: nonexistent_table''"
    by (simp add: found_env_def branches_store_def)
  have s2: "db_store found_env ''SELECT * FROM branches'' = Inr [[''1'', ''Pune''], [''2'', ''Delhi'']]"
    by (simp add: found_env_def branches_store_def)
  have p: "db_abspath missing_env = ''/code/test/../src/banking_system.db''
      \<and> alt_db_path missing_env = ''/code/src/banking_system.db''"
    by (simp add: missing_env_def)
  have A: "TestExecutor_run_query found_env ''SELECT * FROM nonexistent_table'' =
       ((None, Some ''no such table: nonexistent_table''), [''SELECT * FROM nonexistent_table''])
     \<and> messages (handle_response branches_store empty_session (Some ''SELECT * FROM nonexistent_table'')) =
       [mk_turn ''assistant'' ''Error running query: no such table: nonexistent_table'']"
    using h1 h2 query_failure_is_contained
      [of found_env "''SELECT * FROM nonexistent_table''" "''sys''" None branches_store
          empty_session None "''SELECT * FROM nonexistent_table''"
          "''no such table: nonexistent_table''" "[]"]
    by (simp add: s x empty_session_def)
  have B: "TestExecutor_run_query found_env ''SELECT * FROM branches'' =
       ((Some [[''1'', ''Pune''], [''2'', ''Delhi'']], None), [''SELECT * FROM branches''])
     \<and> results (handle_response branches_store empty_session (Some ''SELECT * FROM branches'')) =
       [(''SELECT * FROM branches'', [[''1'', ''Pune''], [''2'', ''Delhi'']])]"
    using h1 h3 query_failure_is_contained
      [of found_env "''SELECT * FROM branches''" "''sys''" None branches_store
          empty_session None "''SELECT * FROM branches''"
          "[]" "[[''1'', ''Pune''], [''2'', ''Delhi'']]"]
    by (simp add: s2 y empty_session_def)
  have C: "TestExecutor_run_query missing_env ''SELECT * FROM branches'' =
       ((None, Some ''Database not found at: /code/test/../src/banking_system.db or /code/src/banking_system.db''), [])"
    using h0 query_failure_is_contained [of missing_env "''SELECT * FROM branches''" "''sys''" None branches_store
          empty_session None "[]" "[]" "[]"]
    by (simp add: p)
  show ?thesis using h0 h1 h2 h3 A B C by simp
qed

text \<open>
  C7. When the inference call fails or returns no response, an advisory to rephrase is shown
  and no assistant turn is appended. With no response the code appends the advisory as an
  assistant turn.
\<close>

theorem no_response_appends_assistant_turn:
  "assistant_turns
     (messages (fst (chat_round ''sys'' (\<lambda>m. Returns None) branches_store empty_session
                       (Some ''List all branches'')))) \<noteq>
   assistant_turns (messages empty_session)"
  by (simp add: chat_round_def clarification_chaining_def append_user_def handle_response_def
        empty_session_def assistant_turns_def mk_turn_def)

text \<open>
  C7, as the code has it: when the inference call returns no response (\<open>None\<close> or the empty
  text), the round ends without an exception, shows the advisory as a warning and appends
  it as an assistant turn after the turns of the user step; the advisory does not contain
  the word \<open>clarification\<close>, so the next input is not merged into an earlier turn.
\<close>

theorem no_response_advisory:
  assumes "r = None \<or> r = Some []" and "u \<noteq> []"
  shows "snd (chat_round sp (\<lambda>m. Returns r) db st (Some u)) = None
       \<and> messages (fst (chat_round sp (\<lambda>m. Returns r) db st (Some u))) =
           messages (append_user (st\<lparr>messages := fst (clarification_chaining (messages st) u)\<rparr>)
                       (snd (clarification_chaining (messages st) u)))
           @ [mk_turn ''assistant'' warning_message]
       \<and> ui (fst (chat_round sp (\<lambda>m. Returns r) db st (Some u))) =
           ui (append_user (st\<lparr>messages := fst (clarification_chaining (messages st) u)\<rparr>)
                 (snd (clarification_chaining (messages st) u)))
           @ [WarningBox warning_message]
       \<and> clarification_chaining (messages (fst (chat_round sp (\<lambda>m. Returns r) db st (Some u)))) v =
           (messages (fst (chat_round sp (\<lambda>m. Returns r) db st (Some u))), Some v)"
proof -
  let ?st1 = "append_user (st\<lparr>messages := fst (clarification_chaining (messages st) u)\<rparr>)
                (snd (clarification_chaining (messages st) u))"
  have h: "handle_response db s r =
             s\<lparr>messages := messages s @ [mk_turn ''assistant'' warning_message],
               ui := ui s @ [WarningBox warning_message]\<rparr>" for s
    using assms(1) by (auto simp add: handle_response_def)
  have c: "chat_round sp (\<lambda>m. Returns r) db st (Some u) = (handle_response db ?st1 r, None)"
    using assms(2) by (simp add: chat_round_def Let_def split: prod.splits)
  have n: "clarification_chaining (ms @ [mk_turn ''assistant'' warning_message]) v =
             (ms @ [mk_turn ''assistant'' warning_message], Some v)" for ms
    using warning_no_signal by (simp add: clarification_chaining_def mk_turn_def Let_def)
  show ?thesis by (simp add: c h n)
qed

theorem no_response_advisory_witness:
  "((None :: string option) = None \<or> (None :: string option) = Some []) \<and> ''hello'' \<noteq> []
   \<and> messages (fst (chat_round ''sys'' (\<lambda>m. Returns None) branches_store empty_session (Some ''hello''))) =
       [mk_turn ''user'' ''hello'', mk_turn ''assistant'' warning_message]
   \<and> ui (fst (chat_round ''sys'' (\<lambda>m. Returns None) branches_store empty_session (Some ''hello''))) =
       [ChatUser ''hello'', WarningBox warning_message]"
proof -
  have h1: "(None :: string option) = None \<or> (None :: string option) = Some []" by simp
  have h2: "''hello'' \<noteq> []" by simp
  show ?thesis
    using no_response_advisory [OF h1 h2, of "''sys''" branches_store empty_session]
    by (simp add: clarification_chaining_def append_user_def empty_session_def)
qed

text \<open>
  C8. Every result of \<open>execute_test_case\<close> has status \<open>CLARIFICATION_REQUESTED\<close> exactly
  when \<open>clarification_requested\<close> is set, and \<open>result_count\<close> 0 whenever its status is not
  \<open>PASSED\<close>.
\<close>

theorem test_result_invariant:
  "(execution_status (fst (execute_test_case sp llm env t0 t1 tid q)) = ''CLARIFICATION_REQUESTED''
      \<longleftrightarrow> clarification_requested (fst (execute_test_case sp llm env t0 t1 tid q)))
   \<and> (execution_status (fst (execute_test_case sp llm env t0 t1 tid q)) \<noteq> ''PASSED''
        \<longrightarrow> result_count (fst (execute_test_case sp llm env t0 t1 tid q)) = 0)"
  by (simp add: execute_test_case_def Let_def split: prod.splits)

theorem test_result_invariant_witness:
  "execution_status (fst (execute_test_case ''sys'' (\<lambda>m. Inr ''SELECT * FROM nonexistent_table'')
      found_env 0 1 ''T2'' ''List all widgets'')) \<noteq> ''PASSED''
   \<and> result_count (fst (execute_test_case ''sys'' (\<lambda>m. Inr ''SELECT * FROM nonexistent_table'')
      found_env 0 1 ''T2'' ''List all widgets'')) = 0
   \<and> \<not> clarification_requested (fst (execute_test_case ''sys''
      (\<lambda>m. Inr ''SELECT * FROM nonexistent_table'') found_env 0 1 ''T2'' ''List all widgets''))"
proof -
  have x: "extract_sql ''SELECT * FROM nonexistent_table'' = ''SELECT * FROM nonexistent_table''"
    by code_simp
  have h: "execution_status (fst (execute_test_case ''sys'' (\<lambda>m. Inr ''SELECT * FROM nonexistent_table'')
      found_env 0 1 ''T2'' ''List all widgets'')) = ''FAILED''"
    by (simp add: execute_test_case_def generate_sql_def startswith_def x Let_def
          TestExecutor_run_query_def found_env_def branches_store_def)
  show ?thesis
    using h test_result_invariant
      [of "''sys''" "\<lambda>m. Inr ''SELECT * FROM nonexistent_table''" found_env 0 1 "''T2''"
          "''List all widgets''"]
    by simp
qed

text \<open>
  C9. The summary statistics are computed without a division error: \<open>pass_rate\<close> is
  \<open>passed / total * 100\<close>, and 0 for no results; \<open>average_execution_time\<close> is the mean of the
  execution times, and 0 for no results. (Floats are taken as reals.)
\<close>

theorem summary_stats_rates:
  "\<exists>s. generate_summary_stats rs = Inr s
      \<and> total_tests s = length rs
      \<and> passed s = count_status ''PASSED'' rs
      \<and> pass_rate s =
          (if length rs = 0 then 0 else real (count_status ''PASSED'' rs) / real (length rs) * 100)
      \<and> average_execution_time s =
          (if rs = [] then 0 else sum_list (map execution_time rs) / real (length rs))"
  by (simp add: generate_summary_stats_def truediv_def Let_def)

theorem summary_stats_rates_witness:
  "\<exists>s. generate_summary_stats sample_results = Inr s \<and> pass_rate s = 50
      \<and> average_execution_time s = 2
   \<and> (\<exists>s. generate_summary_stats [] = Inr s \<and> pass_rate s = 0 \<and> average_execution_time s = 0)"
proof -
  have l: "length sample_results = 4" by (simp add: sample_results_def)
  have p: "count_status ''PASSED'' sample_results = 2"
    by (simp add: sample_results_def sample_result_def count_status_def)
  have t: "sum_list (map execution_time sample_results) = 8"
    by (simp add: sample_results_def sample_result_def)
  have n: "sample_results \<noteq> []" by (simp add: sample_results_def)
  have a: "\<exists>s. generate_summary_stats sample_results = Inr s \<and> pass_rate s = 50
      \<and> average_execution_time s = 2"
    using summary_stats_rates [of sample_results] by (simp add: l p t n) blast
  have b: "\<exists>s. generate_summary_stats [] = Inr s \<and> pass_rate s = 0 \<and> average_execution_time s = 0"
    using summary_stats_rates [of "[]"] by simp blast
  show ?thesis using a b by blast
qed

text \<open>
  C10. When the inference call raises, \<open>generate_sql\<close> returns \<open>Error generating SQL: \<close>
  followed by the exception's text, and \<open>execute_test_case\<close> treats it as a response: the
  text is extracted and sent to \<open>run_query\<close>, the result has \<open>clarification_requested\<close>
  false and the status \<open>FAILED\<close> or \<open>PASSED\<close> of the execution path.
\<close>

theorem inference_failure_takes_execution_path:
  assumes "llm [SystemMessage sp, HumanMessage q] = Inl e"
  shows "generate_sql sp llm q = ''Error generating SQL: '' @ e
    \<and> fst (execute_test_case sp llm env t0 t1 tid q) =
        (let sql = extract_sql (''Error generating SQL: '' @ e);
             err = snd (fst (TestExecutor_run_query env sql));
             df = fst (fst (TestExecutor_run_query env sql))
         in \<lparr>test_id = tid, query = q, generated_sql = sql,
              execution_status = (if err \<noteq> None \<and> err \<noteq> Some [] then ''FAILED'' else ''PASSED''),
              execution_time = t1 - t0,
              result_count = (if err \<noteq> None \<and> err \<noteq> Some [] then 0
                              else case df of Some d \<Rightarrow> int (length d) | None \<Rightarrow> 0),
              error_message = (if err \<noteq> None \<and> err \<noteq> Some [] then err else None),
              clarification_requested = False\<rparr>)
    \<and> snd (execute_test_case sp llm env t0 t1 tid q) =
        snd (TestExecutor_run_query env (extract_sql (''Error generating SQL: '' @ e)))"
proof -
  have g: "generate_sql sp llm q = ''Error generating SQL: '' @ e"
    using assms by (simp add: generate_sql_def)
  have n: "\<not> startswith (generate_sql sp llm q) ''CLARIFICATION:''"
    unfolding g by (rule marker_not_prefix_of_error)
  show ?thesis
    using n by (simp add: execute_test_case_def g Let_def split: prod.splits)
qed

theorem inference_failure_takes_execution_path_witness:
  "refusing_llm [SystemMessage ''sys'', HumanMessage ''List all branches''] = Inl ''connection refused''
   \<and> execution_status (fst (execute_test_case ''sys'' refusing_llm found_env 0 2 ''T7''
        ''List all branches'')) = ''FAILED''
   \<and> \<not> clarification_requested (fst (execute_test_case ''sys'' refusing_llm found_env 0 2 ''T7''
        ''List all branches''))
   \<and> snd (execute_test_case ''sys'' refusing_llm found_env 0 2 ''T7'' ''List all branches'') =
       [''Error generating SQL: connection refused'']"
proof -
  have h: "refusing_llm [SystemMessage ''sys'', HumanMessage ''List all branches''] =
             Inl ''connection refused''"
    by (simp add: refusing_llm_def)
  have x: "extract_sql ''Error generating SQL: connection refused'' =
             ''Error generating SQL: connection refused''"
    by code_simp
  show ?thesis
    using h inference_failure_takes_execution_path
      [of refusing_llm "''sys''" "''List all branches''" "''connection refused''"
          found_env 0 2 "''T7''"]
    by (simp add: x TestExecutor_run_query_def found_env_def branches_store_def)
qed

end
